theory Spec2Isabelle
  imports Main "HOL-Library.AList"
begin

section \<open>Python text\<close>

text \<open>
  A Python \<open>str\<close> is a sequence of Unicode code points, so it is modelled as a list of
  natural numbers (the code points), not as a list of 8-bit characters. The literals of the
  script are ASCII and are written through \<open>str\<close>.
\<close>

type_synonym str = "nat list"

definition str :: "string \<Rightarrow> str" where
  "str cs = map of_char cs"

text \<open>
  \<open>str.splitlines()\<close>: the line boundaries are \<open>\n\<close>, \<open>\r\<close>, \<open>\r\n\<close>, \<open>\v\<close>, \<open>\f\<close>,
  \<open>\x1c\<close>, \<open>\x1d\<close>, \<open>\x1e\<close>, \<open>\x85\<close>, \<open>\u2028\<close> and \<open>\u2029\<close>; the boundaries are not kept,
  and a boundary at the very end opens no further line.
\<close>

definition is_linebreak :: "nat \<Rightarrow> bool" where
  "is_linebreak c \<longleftrightarrow> c \<in> {10, 11, 12, 13, 28, 29, 30, 133, 8232, 8233}"

fun splitlines :: "str \<Rightarrow> str list" where
  "splitlines [] = []"
| "splitlines (c # cs) =
     (if c = 13 then
        (case cs of
           [] \<Rightarrow> [[]]
         | d # ds \<Rightarrow> if d = 10 then [] # splitlines ds else [] # splitlines cs)
      else if is_linebreak c then [] # splitlines cs
      else (case splitlines cs of
              [] \<Rightarrow> [[c]]
            | l # ls \<Rightarrow> (c # l) # ls))"

text \<open>
  \<open>str.strip()\<close> without argument removes leading and trailing whitespace, that is, the
  code points for which \<open>str.isspace\<close> holds.
\<close>

definition isspace :: "nat \<Rightarrow> bool" where
  "isspace c \<longleftrightarrow>
     c \<in> {9, 10, 11, 12, 13, 28, 29, 30, 31, 32, 133, 160, 5760, 8232, 8233, 8239, 8287, 12288}
     \<or> (8192 \<le> c \<and> c \<le> 8202)"

definition strip :: "str \<Rightarrow> str" where
  "strip s = rev (dropWhile isspace (rev (dropWhile isspace s)))"

definition startswith :: "str \<Rightarrow> str \<Rightarrow> bool" where
  "startswith s p \<longleftrightarrow> take (length p) s = p"

text \<open>\<open>sub in s\<close> for two strings: \<open>sub\<close> occurs in \<open>s\<close> as a contiguous run.\<close>

fun contains :: "str \<Rightarrow> str \<Rightarrow> bool" where
  "contains [] sub = (sub = [])"
| "contains (c # cs) sub = (startswith (c # cs) sub \<or> contains cs sub)"


section \<open>Python values\<close>

text \<open>
  The values that \<open>json.loads\<close> produces: \<open>None\<close>, \<open>bool\<close>, \<open>int\<close>, \<open>float\<close>, \<open>str\<close>, \<open>list\<close>
  and \<open>dict\<close> (insertion ordered, so an association list). A float is kept as the decimal
  it was read from, \<open>(-1)^sign * mantissa * 10^exponent\<close>, or as one of the three special
  values that Python's decoder accepts.
\<close>

datatype pyfloat = Dec bool nat int | Infinity bool | NaN

datatype py =
    PNone
  | PBool bool
  | PInt int
  | PFloat pyfloat
  | PStr str
  | PList "py list"
  | PDict "(str \<times> py) list"

datatype exn = AttributeError | TypeError | ValueError | RecursionError

text \<open>
  A decimal is read as the nearest double, ties to even. The smallest positive double is
  \<open>2^-1074\<close>, so the double is zero exactly when the decimal is at most \<open>2^-1075\<close> in
  magnitude.
\<close>

fun float_nonzero :: "pyfloat \<Rightarrow> bool" where
  "float_nonzero (Dec sg m e) =
     (if 0 \<le> e then 0 < m else 10 ^ nat (- e) < m * 2 ^ 1075)"
| "float_nonzero (Infinity sg) = True"
| "float_nonzero NaN = True"

text \<open>Truth value testing, as \<open>if x:\<close>, \<open>not x\<close> and \<open>x or y\<close> apply it.\<close>

fun truthy :: "py \<Rightarrow> bool" where
  "truthy PNone = False"
| "truthy (PBool b) = b"
| "truthy (PInt i) = (i \<noteq> 0)"
| "truthy (PFloat f) = float_nonzero f"
| "truthy (PStr s) = (s \<noteq> [])"
| "truthy (PList xs) = (xs \<noteq> [])"
| "truthy (PDict kvs) = (kvs \<noteq> [])"

fun isinstance_dict :: "py \<Rightarrow> bool" where
  "isinstance_dict (PDict kvs) = True"
| "isinstance_dict v = False"

text \<open>
  \<open>obj.get(key, default)\<close>: only a \<open>dict\<close> has the method; on every other value the
  attribute lookup raises \<open>AttributeError\<close>.
\<close>

fun get :: "py \<Rightarrow> str \<Rightarrow> py \<Rightarrow> exn + py" where
  "get (PDict kvs) k d = Inr (case map_of kvs k of Some v \<Rightarrow> v | None \<Rightarrow> d)"
| "get obj k d = Inl AttributeError"

text \<open>\<open>a or b\<close>, where evaluating either operand may raise; \<open>b\<close> is evaluated only when needed.\<close>

definition py_or :: "exn + py \<Rightarrow> exn + py \<Rightarrow> exn + py" where
  "py_or a b = (case a of Inl e \<Rightarrow> Inl e | Inr v \<Rightarrow> if truthy v then Inr v else b)"


section \<open>Field extraction\<close>

text \<open>\<open>_extract_model\<close>, lines 44 to 53.\<close>

definition extract_model :: "py \<Rightarrow> exn + py" where
  "extract_model payload =
     (case get payload (str ''model'') PNone of
        Inl e \<Rightarrow> Inl e
      | Inr model \<Rightarrow>
          if truthy model then Inr model
          else (case get payload (str ''response'') PNone of
                  Inl e \<Rightarrow> Inl e
                | Inr response \<Rightarrow>
                    if isinstance_dict response then get response (str ''model'') PNone
                    else Inr PNone))"

text \<open>
  The reasoning-effort block of \<open>response\<close>, lines 86 to 95, in three parts: the resolved
  \<open>reasoning\<close> value (lines 89 to 91), the effort read from it (lines 93 to 95), and the
  block as a whole.
\<close>

definition resolve_reasoning :: "py \<Rightarrow> exn + py" where
  "resolve_reasoning response =
     py_or (get response (str ''reasoning'') PNone)
       (case get response (str ''metadata'') (PDict []) of
          Inl e \<Rightarrow> Inl e
        | Inr metadata \<Rightarrow> get metadata (str ''reasoning'') PNone)"

definition effort_of :: "py \<Rightarrow> exn + py" where
  "effort_of reasoning =
     py_or (get reasoning (str ''effort'') PNone) (get reasoning (str ''effort_level'') PNone)"

definition reasoning_effort :: "py \<Rightarrow> exn + py" where
  "reasoning_effort payload =
     (case get payload (str ''response'') PNone of
        Inl e \<Rightarrow> Inl e
      | Inr response \<Rightarrow>
          if isinstance_dict response then
            (case resolve_reasoning response of
               Inl e \<Rightarrow> Inl e
             | Inr reasoning \<Rightarrow>
                 if isinstance_dict reasoning then effort_of reasoning else Inr PNone)
          else Inr PNone)"


section \<open>Flows, effects and outcomes\<close>

text \<open>
  The flow object belongs to the proxy host; the script reads the fields below. The two
  text fields stand for what the host's accessor returns when it is called:
  \<open>flow.request.get_text()\<close> raises, returns \<open>None\<close> or returns the text, and
  \<open>flow.response.get_text(strict=False)\<close> returns \<open>None\<close> or the text.
\<close>

record request_msg =
  pretty_url :: str
  request_method :: str
  request_text :: "exn + str option"

record response_msg =
  status_code :: int
  headers :: "(str \<times> str) list"
  response_text :: "str option"

record flow =
  flow_id :: str
  flow_request :: request_msg
  flow_response :: "response_msg option"

text \<open>
  What a callback does to the outside: the records it hands to the host's logging facility
  (one constructor for each format string of the script, carrying the arguments in order),
  the reads of a body text, and the write of the debug file. The logging facility is taken
  to accept every record. The type \<open>'e\<close> is whatever the decoder's exception carries
  (\<open>str(exc)\<close> in the warning).
\<close>

datatype 'e effect =
    Info_response str int "(str \<times> str) list"
  | Info_sse_model str py py py str
  | Info_request str py py "str list"
  | Warn_decode 'e str
  | Get_text
  | Write_text str str

text \<open>
  A finished callback: the flow as the callback leaves it, the effects in the order they
  happened, and the exception that left the callback, if any.
\<close>

record 'e outcome =
  flow_after :: flow
  effects :: "'e effect list"
  raised :: "exn option"


section \<open>Flow classification\<close>

text \<open>\<open>_looks_like_codex\<close>, lines 56 to 58.\<close>

definition looks_like_codex :: "flow \<Rightarrow> bool" where
  "looks_like_codex flow =
     (let url = pretty_url (flow_request flow)
      in contains url (str ''chatgpt.com'') \<and> contains url (str ''/backend-api/codex''))"


section \<open>The SSE producer\<close>

text \<open>
  \<open>_iter_sse_payloads\<close>, lines 20 to 41. The decoder \<open>json.loads\<close> is a parameter
  \<open>loads\<close>. Called on a text it returns the decoded value, or it raises
  \<open>JSONDecodeError\<close> (whose content is of the type \<open>'e\<close>), or it raises another exception:
  \<open>RecursionError\<close> on a text nested deeper than the recursion limit allows, \<open>ValueError\<close>
  on an integer literal with more digits than \<open>int\<close> accepts. The \<open>except\<close> clause of line
  37 catches the \<open>JSONDecodeError\<close> only, so another exception leaves the generator.
\<close>

datatype 'e loaded = Loaded py | JSONDecodeError 'e | Other_error exn

text \<open>
  One line of the body is skipped, gives a warning, yields a pair or raises: this is the
  body of the \<open>for\<close> loop.
\<close>

datatype 'e sse_step = Skip | Warn 'e str | Yield py py | Raise exn

definition sse_payload :: "str \<Rightarrow> str" where
  "sse_payload line = strip (drop (length (str ''data:'')) line)"

definition sse_line :: "(str \<Rightarrow> 'e loaded) \<Rightarrow> str \<Rightarrow> 'e sse_step" where
  "sse_line loads raw_line =
     (let line = strip raw_line in
      if \<not> startswith line (str ''data:'') then Skip
      else
        let payload = sse_payload line in
        if payload = [] \<or> payload = str ''[DONE]'' then Skip
        else
          (case loads payload of
             JSONDecodeError exc \<Rightarrow> Warn exc payload
           | Other_error e \<Rightarrow> Raise e
           | Loaded parsed \<Rightarrow>
               (case get parsed (str ''type'') (PStr (str ''unknown'')) of
                  Inl e \<Rightarrow> Raise e
                | Inr event_type \<Rightarrow> Yield event_type parsed)))"

text \<open>
  The generator as the trace it produces when it is run to its end: the warnings and the
  yielded pairs in order; an exception ends it. A skipped line leaves no trace.
\<close>

fun iter_lines :: "(str \<Rightarrow> 'e loaded) \<Rightarrow> str list \<Rightarrow> 'e sse_step list" where
  "iter_lines loads [] = []"
| "iter_lines loads (raw_line # rest) =
     (case sse_line loads raw_line of
        Skip \<Rightarrow> iter_lines loads rest
      | Raise e \<Rightarrow> [Raise e]
      | s \<Rightarrow> s # iter_lines loads rest)"

definition iter_sse_payloads :: "(str \<Rightarrow> 'e loaded) \<Rightarrow> str \<Rightarrow> 'e sse_step list" where
  "iter_sse_payloads loads body = iter_lines loads (splitlines body)"

text \<open>The sequence of pairs the consumer of the generator receives.\<close>

fun yielded :: "'e sse_step list \<Rightarrow> (py \<times> py) list" where
  "yielded [] = []"
| "yielded (Yield event_type payload # tr) = (event_type, payload) # yielded tr"
| "yielded (s # tr) = yielded tr"


section \<open>The callbacks\<close>

text \<open>
  The \<open>for\<close> loop of \<open>response\<close>, lines 84 to 105, over the trace of the generator. The
  warnings of the generator happen between the iterations of the loop, in line order.
\<close>

fun sse_loop :: "flow \<Rightarrow> 'e sse_step list \<Rightarrow> 'e effect list \<times> exn option" where
  "sse_loop flow [] = ([], None)"
| "sse_loop flow (Skip # tr) = sse_loop flow tr"
| "sse_loop flow (Warn exc chunk # tr) =
     (case sse_loop flow tr of (es, r) \<Rightarrow> (Warn_decode exc chunk # es, r))"
| "sse_loop flow (Raise e # tr) = ([], Some e)"
| "sse_loop flow (Yield event_type payload # tr) =
     (case extract_model payload of
        Inl e \<Rightarrow> ([], Some e)
      | Inr model \<Rightarrow>
          (case reasoning_effort payload of
             Inl e \<Rightarrow> ([], Some e)
           | Inr effort \<Rightarrow>
               (case sse_loop flow tr of
                  (es, r) \<Rightarrow>
                    ((if truthy model
                      then [Info_sse_model (flow_id flow) event_type model effort
                              (pretty_url (flow_request flow))]
                      else []) @ es, r))))"

definition debug_path :: str where
  "debug_path = str ''/tmp/mitm_last_body.txt''"

text \<open>
  \<open>response\<close>, lines 61 to 105. When the body text is \<open>None\<close>, \<open>write_text\<close> raises
  \<open>TypeError\<close> before it opens the file, which the \<open>try\<close> swallows, and the generator
  raises \<open>AttributeError\<close> at \<open>body.splitlines()\<close>.
\<close>

definition response :: "(str \<Rightarrow> 'e loaded) \<Rightarrow> flow \<Rightarrow> 'e outcome" where
  "response loads flow =
     (case flow_response flow of
        None \<Rightarrow> \<lparr>flow_after = flow, effects = [], raised = None\<rparr>
      | Some resp \<Rightarrow>
          (let summary = Info_response (flow_id flow) (status_code resp) (headers resp) in
           if \<not> looks_like_codex flow
           then \<lparr>flow_after = flow, effects = [summary], raised = None\<rparr>
           else
             (case response_text resp of
                None \<Rightarrow>
                  \<lparr>flow_after = flow, effects = [summary, Get_text],
                   raised = Some AttributeError\<rparr>
              | Some body \<Rightarrow>
                  (case sse_loop flow (iter_sse_payloads loads body) of
                     (es, r) \<Rightarrow>
                       \<lparr>flow_after = flow,
                        effects = [summary, Get_text, Write_text debug_path body] @ es,
                        raised = r\<rparr>))))"

text \<open>\<open>list(payload.keys())\<close>.\<close>

fun keys :: "py \<Rightarrow> exn + str list" where
  "keys (PDict kvs) = Inr (map fst kvs)"
| "keys obj = Inl AttributeError"

text \<open>
  \<open>request\<close>, lines 108 to 129. Inside the \<open>try\<close>, \<open>get_text()\<close> may raise,
  \<open>json.loads(None)\<close> raises \<open>TypeError\<close>, and \<open>json.loads\<close> may raise on the text;
  \<open>except Exception\<close> catches them all. The arguments of the log call are evaluated
  outside the \<open>try\<close>.
\<close>

definition request :: "(str \<Rightarrow> 'e loaded) \<Rightarrow> flow \<Rightarrow> 'e outcome" where
  "request loads flow =
     (if \<not> looks_like_codex flow
      then \<lparr>flow_after = flow, effects = [], raised = None\<rparr>
      else if request_method (flow_request flow) \<noteq> str ''POST''
      then \<lparr>flow_after = flow, effects = [], raised = None\<rparr>
      else
        (case request_text (flow_request flow) of
           Inl e \<Rightarrow> \<lparr>flow_after = flow, effects = [Get_text], raised = None\<rparr>
         | Inr None \<Rightarrow> \<lparr>flow_after = flow, effects = [Get_text], raised = None\<rparr>
         | Inr (Some body) \<Rightarrow>
             (case loads body of
                JSONDecodeError exc \<Rightarrow>
                  \<lparr>flow_after = flow, effects = [Get_text], raised = None\<rparr>
              | Other_error e \<Rightarrow>
                  \<lparr>flow_after = flow, effects = [Get_text], raised = None\<rparr>
              | Loaded payload \<Rightarrow>
                  (case get payload (str ''prompt_cache_key'') PNone of
                     Inl e \<Rightarrow> \<lparr>flow_after = flow, effects = [Get_text], raised = Some e\<rparr>
                   | Inr cache_key \<Rightarrow>
                       (case get payload (str ''include'') PNone of
                          Inl e \<Rightarrow>
                            \<lparr>flow_after = flow, effects = [Get_text], raised = Some e\<rparr>
                        | Inr include \<Rightarrow>
                            (case keys payload of
                               Inl e \<Rightarrow>
                                 \<lparr>flow_after = flow, effects = [Get_text], raised = Some e\<rparr>
                             | Inr ks \<Rightarrow>
                                 \<lparr>flow_after = flow,
                                  effects = [Get_text,
                                             Info_request (flow_id flow) cache_key include ks],
                                  raised = None\<rparr>))))))"


section \<open>A reference decoder\<close>

text \<open>
  The callbacks above take the decoder as a parameter. For the concrete runs below, the
  decoder is \<open>json_loads\<close>: the JSON grammar as Python's \<open>json.loads\<close> reads it from a
  \<open>str\<close> (whitespace is space, tab, newline and carriage return; control characters are
  refused inside strings; \<open>\uXXXX\<close> escapes, with a surrogate pair of two escapes joined;
  \<open>NaN\<close>, \<open>Infinity\<close> and \<open>-Infinity\<close> accepted; a number without fraction and exponent is
  an \<open>int\<close>; a repeated key keeps its first place and its last value), with its two limits:
  an integer literal of more than 4300 digits raises \<open>ValueError\<close>, and a container opened
  when the recursion limit leaves no room for it raises \<open>RecursionError\<close>.

  The text is read in one pass into tokens, and the tokens in one pass with a stack of open
  containers. Python reads the text from left to right and stops at the first thing that is
  wrong, so the reading of tokens never fails: what cannot be a token becomes a token of its
  own, after which nothing more is read, and the pass over the tokens meets it in its place.
  The message of a \<open>JSONDecodeError\<close> is not modelled.
\<close>

datatype token =
    T_lbrace | T_rbrace | T_lbracket | T_rbracket | T_colon | T_comma
  | T_value py
  | T_overlong
  | T_badstring
  | T_bad

text \<open>
  The states of the reading of tokens. A number carries its sign, the digits so far as a
  number and, for the integer part, how many they are; once a \<open>.\<close> or an \<open>e\<close> has been
  read that may or may not continue the number, the state keeps the token of the number as
  it stands without them.
\<close>

datatype lex =
    L_idle
  | L_stop
  | L_lit str py
  | L_str str "nat option"
  | L_esc str "nat option"
  | L_hex str "nat option" "nat list"
  | L_neg
  | L_int bool nat bool nat
  | L_dot token bool nat
  | L_frac bool nat int
  | L_e token bool nat int
  | L_esign token bool nat int bool
  | L_exp bool nat int bool nat

definition is_digit :: "nat \<Rightarrow> bool" where
  "is_digit c \<longleftrightarrow> 48 \<le> c \<and> c \<le> 57"

definition hex_value :: "nat \<Rightarrow> nat option" where
  "hex_value c =
     (if 48 \<le> c \<and> c \<le> 57 then Some (c - 48)
      else if 97 \<le> c \<and> c \<le> 102 then Some (c - 87)
      else if 65 \<le> c \<and> c \<le> 70 then Some (c - 55)
      else None)"

definition is_high_surrogate :: "nat \<Rightarrow> bool" where
  "is_high_surrogate u \<longleftrightarrow> 55296 \<le> u \<and> u \<le> 56319"

definition is_low_surrogate :: "nat \<Rightarrow> bool" where
  "is_low_surrogate u \<longleftrightarrow> 56320 \<le> u \<and> u \<le> 57343"

definition join_surrogates :: "nat \<Rightarrow> nat \<Rightarrow> nat" where
  "join_surrogates hi lo = 65536 + (hi - 55296) * 1024 + (lo - 56320)"

text \<open>The string body with a pending high surrogate, if any, put in front (it is reversed).\<close>

definition flush :: "str \<Rightarrow> nat option \<Rightarrow> str" where
  "flush acc pending = (case pending of None \<Rightarrow> acc | Some hi \<Rightarrow> hi # acc)"

definition unescape :: "nat \<Rightarrow> nat option" where
  "unescape c =
     (if c = 34 then Some 34
      else if c = 92 then Some 92
      else if c = 47 then Some 47
      else if c = 98 then Some 8
      else if c = 102 then Some 12
      else if c = 110 then Some 10
      else if c = 114 then Some 13
      else if c = 116 then Some 9
      else None)"

text \<open>
  \<open>sys.get_int_max_str_digits()\<close>, 4300 unless the host changes it: \<open>int\<close> refuses a literal
  with more digits, the sign not counted. A \<open>float\<close> has no such limit.
\<close>

definition int_max_str_digits :: nat where
  "int_max_str_digits = 4300"

definition int_token :: "bool \<Rightarrow> nat \<Rightarrow> nat \<Rightarrow> token" where
  "int_token neg n digits =
     (if int_max_str_digits < digits then T_overlong
      else T_value (PInt (if neg then - int n else int n)))"

definition float_token :: "bool \<Rightarrow> nat \<Rightarrow> int \<Rightarrow> token" where
  "float_token neg m e = T_value (PFloat (Dec neg m e))"

text \<open>One character read between tokens.\<close>

definition lex_idle :: "nat \<Rightarrow> lex \<times> token list" where
  "lex_idle c =
     (if c = 32 \<or> c = 9 \<or> c = 10 \<or> c = 13 then (L_idle, [])
      else if c = 123 then (L_idle, [T_lbrace])
      else if c = 125 then (L_idle, [T_rbrace])
      else if c = 91 then (L_idle, [T_lbracket])
      else if c = 93 then (L_idle, [T_rbracket])
      else if c = 58 then (L_idle, [T_colon])
      else if c = 44 then (L_idle, [T_comma])
      else if c = 34 then (L_str [] None, [])
      else if c = 45 then (L_neg, [])
      else if c = 48 then (L_int False 0 True 1, [])
      else if is_digit c then (L_int False (c - 48) False 1, [])
      else if c = 110 then (L_lit (str ''ull'') PNone, [])
      else if c = 116 then (L_lit (str ''rue'') (PBool True), [])
      else if c = 102 then (L_lit (str ''alse'') (PBool False), [])
      else if c = 78 then (L_lit (str ''aN'') (PFloat NaN), [])
      else if c = 73 then (L_lit (str ''nfinity'') (PFloat (Infinity False)), [])
      else (L_stop, [T_bad]))"

text \<open>A finished token followed by the character that ended it.\<close>

definition emit_then :: "token \<Rightarrow> nat \<Rightarrow> lex \<times> token list" where
  "emit_then t c = (case lex_idle c of (st, ts) \<Rightarrow> (st, t # ts))"

text \<open>A completed \<open>\uXXXX\<close> unit \<open>u\<close>, after the body \<open>acc\<close> and a pending high surrogate.\<close>

definition unit_done :: "str \<Rightarrow> nat option \<Rightarrow> nat \<Rightarrow> lex" where
  "unit_done acc pending u =
     (case pending of
        Some hi \<Rightarrow>
          if is_low_surrogate u then L_str (join_surrogates hi u # acc) None
          else if is_high_surrogate u then L_str (hi # acc) (Some u)
          else L_str (u # hi # acc) None
      | None \<Rightarrow>
          if is_high_surrogate u then L_str acc (Some u) else L_str (u # acc) None)"

fun lex_step :: "lex \<Rightarrow> nat \<Rightarrow> lex \<times> token list" where
  "lex_step L_idle c = lex_idle c"
| "lex_step L_stop c = (L_stop, [])"
| "lex_step (L_lit rest v) c =
     (case rest of
        [] \<Rightarrow> (L_stop, [T_bad])
      | r # rs \<Rightarrow>
          if c \<noteq> r then (L_stop, [T_bad])
          else if rs = [] then (L_idle, [T_value v])
          else (L_lit rs v, []))"
| "lex_step (L_str acc pending) c =
     (if c = 34 then (L_idle, [T_value (PStr (rev (flush acc pending)))])
      else if c = 92 then (L_esc acc pending, [])
      else if c < 32 then (L_stop, [T_badstring])
      else (L_str (c # flush acc pending) None, []))"
| "lex_step (L_esc acc pending) c =
     (if c = 117 then (L_hex acc pending [], [])
      else (case unescape c of
              None \<Rightarrow> (L_stop, [T_badstring])
            | Some ch \<Rightarrow> (L_str (ch # flush acc pending) None, [])))"
| "lex_step (L_hex acc pending ds) c =
     (case hex_value c of
        None \<Rightarrow> (L_stop, [T_badstring])
      | Some d \<Rightarrow>
          if length ds < 3 then (L_hex acc pending (ds @ [d]), [])
          else (unit_done acc pending (foldl (\<lambda>u x. u * 16 + x) 0 (ds @ [d])), []))"
| "lex_step L_neg c =
     (if c = 48 then (L_int True 0 True 1, [])
      else if is_digit c then (L_int True (c - 48) False 1, [])
      else if c = 73 then (L_lit (str ''nfinity'') (PFloat (Infinity True)), [])
      else (L_stop, [T_bad]))"
| "lex_step (L_int neg n zero digits) c =
     (if is_digit c \<and> \<not> zero then (L_int neg (n * 10 + (c - 48)) False (Suc digits), [])
      else if c = 46 then (L_dot (int_token neg n digits) neg n, [])
      else if c = 101 \<or> c = 69 then (L_e (int_token neg n digits) neg n 0, [])
      else emit_then (int_token neg n digits) c)"
| "lex_step (L_dot tok neg n) c =
     (if is_digit c then (L_frac neg (n * 10 + (c - 48)) (- 1), [])
      else (L_stop, [tok, T_bad]))"
| "lex_step (L_frac neg m e) c =
     (if is_digit c then (L_frac neg (m * 10 + (c - 48)) (e - 1), [])
      else if c = 101 \<or> c = 69 then (L_e (float_token neg m e) neg m e, [])
      else emit_then (float_token neg m e) c)"
| "lex_step (L_e tok neg m e) c =
     (if c = 43 then (L_esign tok neg m e False, [])
      else if c = 45 then (L_esign tok neg m e True, [])
      else if is_digit c then (L_exp neg m e False (c - 48), [])
      else (L_stop, [tok, T_bad]))"
| "lex_step (L_esign tok neg m e eneg) c =
     (if is_digit c then (L_exp neg m e eneg (c - 48), [])
      else (L_stop, [tok, T_bad]))"
| "lex_step (L_exp neg m e eneg x) c =
     (if is_digit c then (L_exp neg m e eneg (x * 10 + (c - 48)), [])
      else emit_then (float_token neg m (e + (if eneg then - int x else int x))) c)"

text \<open>
  The end of the text. A number ends there; a \<open>.\<close> or an exponent mark without digits is
  left over after the number; anything else that is open is no token.
\<close>

fun lex_end :: "lex \<Rightarrow> token list" where
  "lex_end L_idle = []"
| "lex_end L_stop = []"
| "lex_end (L_int neg n zero digits) = [int_token neg n digits]"
| "lex_end (L_frac neg m e) = [float_token neg m e]"
| "lex_end (L_exp neg m e eneg x) =
     [float_token neg m (e + (if eneg then - int x else int x))]"
| "lex_end (L_dot tok neg n) = [tok, T_bad]"
| "lex_end (L_e tok neg m e) = [tok, T_bad]"
| "lex_end (L_esign tok neg m e eneg) = [tok, T_bad]"
| "lex_end (L_lit rest v) = [T_bad]"
| "lex_end L_neg = [T_bad]"
| "lex_end (L_str acc pending) = [T_badstring]"
| "lex_end (L_esc acc pending) = [T_badstring]"
| "lex_end (L_hex acc pending ds) = [T_badstring]"

fun lex_all :: "lex \<Rightarrow> str \<Rightarrow> token list" where
  "lex_all st [] = lex_end st"
| "lex_all st (c # cs) = (case lex_step st c of (st', ts) \<Rightarrow> ts @ lex_all st' cs)"

text \<open>
  The parser: what it expects next, and the stack of open containers. An array frame holds
  its elements in reverse; a key frame sits on the object frame it belongs to. The depth is
  the number of open containers.
\<close>

datatype frame = F_arr "py list" | F_obj "(str \<times> py) list" | F_key str

datatype pmode =
    P_value | P_value_or_close | P_after_elem
  | P_key | P_key_or_close | P_colon | P_after_member
  | P_done py

fun depth :: "frame list \<Rightarrow> nat" where
  "depth [] = 0"
| "depth (F_key k # st) = depth st"
| "depth (f # st) = Suc (depth st)"

text \<open>
  One token: the parser goes on, or it stops. Where a value is expected and none begins,
  the scanner signals it and the \<open>JSONDecodeError\<close> is raised outside the scanner
  (\<open>Expecting_value\<close>); so is the one for text after the value (\<open>Extra_data\<close>); every
  other syntax error is raised on the spot, at the depth the scanner is in
  (\<open>Syntax_error\<close>); the two limits raise their own exceptions (\<open>Throws\<close>).
\<close>

datatype pstep =
    Go pmode "frame list"
  | Expecting_value
  | Extra_data
  | Syntax_error nat
  | Throws exn

fun place :: "py \<Rightarrow> frame list \<Rightarrow> pstep" where
  "place v [] = Go (P_done v) []"
| "place v (F_arr xs # st) = Go P_after_elem (F_arr (v # xs) # st)"
| "place v (F_key k # F_obj d # st) = Go P_after_member (F_obj (AList.update k v d) # st)"
| "place v st = Expecting_value"

text \<open>
  A value begins. Python enters one level of recursion for each container it opens; \<open>room\<close>
  is the number of levels the recursion limit leaves at the call.
\<close>

fun open_value :: "nat \<Rightarrow> token \<Rightarrow> frame list \<Rightarrow> pstep" where
  "open_value room (T_value v) st = place v st"
| "open_value room T_overlong st = Throws ValueError"
| "open_value room T_lbracket st =
     (if room \<le> depth st then Throws RecursionError else Go P_value_or_close (F_arr [] # st))"
| "open_value room T_lbrace st =
     (if room \<le> depth st then Throws RecursionError else Go P_key_or_close (F_obj [] # st))"
| "open_value room T_badstring st = Syntax_error (depth st)"
| "open_value room t st = Expecting_value"

fun close_array :: "frame list \<Rightarrow> pstep" where
  "close_array (F_arr xs # st) = place (PList (rev xs)) st"
| "close_array st = Expecting_value"

fun close_object :: "frame list \<Rightarrow> pstep" where
  "close_object (F_obj d # st) = place (PDict d) st"
| "close_object st = Expecting_value"

fun open_key :: "token \<Rightarrow> frame list \<Rightarrow> pstep" where
  "open_key (T_value (PStr k)) st = Go P_colon (F_key k # st)"
| "open_key t st = Syntax_error (depth st)"

fun parse_step :: "nat \<Rightarrow> pmode \<Rightarrow> frame list \<Rightarrow> token \<Rightarrow> pstep" where
  "parse_step room P_value st t = open_value room t st"
| "parse_step room P_value_or_close st t =
     (if t = T_rbracket then close_array st else open_value room t st)"
| "parse_step room P_after_elem st t =
     (if t = T_comma then Go P_value st
      else if t = T_rbracket then close_array st
      else Syntax_error (depth st))"
| "parse_step room P_key st t = open_key t st"
| "parse_step room P_key_or_close st t =
     (if t = T_rbrace then close_object st else open_key t st)"
| "parse_step room P_colon st t =
     (if t = T_colon then Go P_value st else Syntax_error (depth st))"
| "parse_step room P_after_member st t =
     (if t = T_comma then Go P_key st
      else if t = T_rbrace then close_object st
      else Syntax_error (depth st))"
| "parse_step room (P_done v) st t = Extra_data"

text \<open>
  Raising a \<open>JSONDecodeError\<close> calls its constructor, a Python function, and so takes
  recursion levels of its own. On CPython 3.11 the error for text after the value needs the
  room of one container, the error for a missing value the room of two, and an error raised
  inside the scanner the room of three on top of the containers that are open. Where the
  room is smaller, the \<open>RecursionError\<close> of that attempt is what comes out.
\<close>

definition decode_error :: "nat \<Rightarrow> nat \<Rightarrow> unit loaded" where
  "decode_error room levels =
     (if room < levels then Other_error RecursionError else JSONDecodeError ())"

fun parse_end :: "nat \<Rightarrow> pmode \<Rightarrow> frame list \<Rightarrow> unit loaded" where
  "parse_end room (P_done v) st = Loaded v"
| "parse_end room P_value st = decode_error room 2"
| "parse_end room P_value_or_close st = decode_error room 2"
| "parse_end room m st = decode_error room (depth st + 3)"

fun parse_all :: "nat \<Rightarrow> pmode \<Rightarrow> frame list \<Rightarrow> token list \<Rightarrow> unit loaded" where
  "parse_all room m st [] = parse_end room m st"
| "parse_all room m st (t # ts) =
     (case parse_step room m st t of
        Go m' st' \<Rightarrow> parse_all room m' st' ts
      | Expecting_value \<Rightarrow> decode_error room 2
      | Extra_data \<Rightarrow> decode_error room 1
      | Syntax_error d \<Rightarrow> decode_error room (d + 3)
      | Throws e \<Rightarrow> Other_error e)"

text \<open>\<open>json.loads\<close> itself refuses a text that starts with a byte order mark.\<close>

definition json_loads_in :: "nat \<Rightarrow> str \<Rightarrow> unit loaded" where
  "json_loads_in room s =
     (if startswith s [65279] then JSONDecodeError ()
      else parse_all room P_value [] (lex_all L_idle s))"

text \<open>
  The room depends on the call stack of the host at the moment of the call, below Python's
  recursion limit of 1000. The concrete runs take 900; their texts nest three deep at most.
\<close>

definition recursion_room :: nat where
  "recursion_room = 900"

definition json_loads :: "str \<Rightarrow> unit loaded" where
  "json_loads = json_loads_in recursion_room"


section \<open>The extraction rules as the specification words them\<close>

text \<open>
  The specification speaks of fields that are present or absent. In a decoded object a
  field is present when the key has an entry, also when the entry is \<open>null\<close>; \<open>py_of\<close>
  turns an absent result into \<open>None\<close>, which is what the script logs for it.
\<close>

definition py_of :: "py option \<Rightarrow> py" where
  "py_of v = (case v of None \<Rightarrow> PNone | Some x \<Rightarrow> x)"

text \<open>
  The model rule of the specification: the top-level \<open>model\<close> when it is present and not
  empty (its truth value is true), else \<open>response.model\<close> when \<open>response\<close> is present and
  an object, else no model.
\<close>

definition spec_response_model :: "(str \<times> py) list \<Rightarrow> py option" where
  "spec_response_model payload =
     (case map_of payload (str ''response'') of
        Some (PDict r) \<Rightarrow> map_of r (str ''model'')
      | _ \<Rightarrow> None)"


text \<open>
  The reasoning-effort rule as the specification states it, by presence: \<open>response.reasoning\<close>
  first, \<open>response.metadata.reasoning\<close> when that is absent; of the resolved object the
  \<open>effort\<close> field, \<open>effort_level\<close> when \<open>effort\<close> is absent.
\<close>

definition stated_reasoning :: "(str \<times> py) list \<Rightarrow> py option" where
  "stated_reasoning r =
     (case map_of r (str ''reasoning'') of
        Some v \<Rightarrow> Some v
      | None \<Rightarrow>
          (case map_of r (str ''metadata'') of
             Some (PDict m) \<Rightarrow> map_of m (str ''reasoning'')
           | _ \<Rightarrow> None))"

definition stated_effort :: "(str \<times> py) list \<Rightarrow> py option" where
  "stated_effort g =
     (case map_of g (str ''effort'') of
        Some v \<Rightarrow> Some v
      | None \<Rightarrow> map_of g (str ''effort_level''))"

definition stated_reasoning_effort :: "(str \<times> py) list \<Rightarrow> py option" where
  "stated_reasoning_effort payload =
     (case map_of payload (str ''response'') of
        Some (PDict r) \<Rightarrow>
          (case stated_reasoning r of
             Some (PDict g) \<Rightarrow> stated_effort g
           | _ \<Rightarrow> None)
      | _ \<Rightarrow> None)"

text \<open>
  The same rule by truth value: a source is passed over when its value is absent or false
  as a truth value (\<open>null\<close>, \<open>false\<close>, zero, an empty string, list or object).
\<close>

definition reasoning_by_truth :: "(str \<times> py) list \<Rightarrow> py" where
  "reasoning_by_truth r =
     (let direct = py_of (map_of r (str ''reasoning'')) in
      if truthy direct then direct
      else (case map_of r (str ''metadata'') of
              Some (PDict m) \<Rightarrow> py_of (map_of m (str ''reasoning''))
            | _ \<Rightarrow> PNone))"

definition effort_by_truth :: "(str \<times> py) list \<Rightarrow> py" where
  "effort_by_truth g =
     (let effort = py_of (map_of g (str ''effort'')) in
      if truthy effort then effort else py_of (map_of g (str ''effort_level'')))"

definition reasoning_effort_by_truth :: "(str \<times> py) list \<Rightarrow> py" where
  "reasoning_effort_by_truth payload =
     (case map_of payload (str ''response'') of
        Some (PDict r) \<Rightarrow>
          (case reasoning_by_truth r of
             PDict g \<Rightarrow> effort_by_truth g
           | _ \<Rightarrow> PNone)
      | _ \<Rightarrow> PNone)"

text \<open>
  The payloads on which \<open>response.metadata\<close>, when the rule reads it, is an object: the
  \<open>response\<close> is no object, or its \<open>reasoning\<close> is true as a truth value, or its \<open>metadata\<close>
  is absent or an object.
\<close>

definition metadata_readable :: "(str \<times> py) list \<Rightarrow> bool" where
  "metadata_readable payload =
     (case map_of payload (str ''response'') of
        Some (PDict r) \<Rightarrow>
          truthy (py_of (map_of r (str ''reasoning'')))
          \<or> (case map_of r (str ''metadata'') of None \<Rightarrow> True | Some m \<Rightarrow> isinstance_dict m)
      | _ \<Rightarrow> True)"



section \<open>Concrete flows\<close>

text \<open>
  Flows for the concrete runs: a classified flow whose response body is the given text, a
  classified \<open>POST\<close> request with the given body and no response yet, and a flow with a
  response whose URL is not classified.
\<close>

definition codex_url :: str where
  "codex_url = str ''https://chatgpt.com/backend-api/codex/responses''"

definition sse_flow :: "str \<Rightarrow> flow" where
  "sse_flow body =
     \<lparr>flow_id = str ''f1'',
      flow_request = \<lparr>pretty_url = codex_url, request_method = str ''POST'',
                      request_text = Inr None\<rparr>,
      flow_response = Some \<lparr>status_code = 200,
                             headers = [(str ''content-type'', str ''text/event-stream'')],
                             response_text = Some body\<rparr>\<rparr>"

definition post_flow :: "str \<Rightarrow> flow" where
  "post_flow body =
     \<lparr>flow_id = str ''f2'',
      flow_request = \<lparr>pretty_url = codex_url, request_method = str ''POST'',
                      request_text = Inr (Some body)\<rparr>,
      flow_response = None\<rparr>"

definition other_flow :: flow where
  "other_flow =
     \<lparr>flow_id = str ''f3'',
      flow_request = \<lparr>pretty_url = str ''https://chatgpt.com/other'', request_method = str ''GET'',
                      request_text = Inr None\<rparr>,
      flow_response = Some \<lparr>status_code = 404, headers = [], response_text = Some []\<rparr>\<rparr>"

text \<open>
  A payload text that is JSON and that \<open>json.loads\<close> does not decode, an integer written
  with 4301 digits \<open>1\<close>, and a body text with that payload on its first \<open>data:\<close> line and
  a valid payload on its second.
\<close>

definition overlong_integer :: str where
  "overlong_integer = replicate 4301 49"

definition overlong_body :: str where
  "overlong_body = str ''data: '' @ overlong_integer @ [10]
                     @ str ''data: {\"type\": \"a\", \"model\": \"m\"}''"


section \<open>Substrings\<close>

lemma startswith_iff: "startswith s p \<longleftrightarrow> (\<exists>b. s = p @ b)"
  unfolding startswith_def
  by (metis append_eq_conv_conj append_take_drop_id)

lemma contains_iff: "contains s sub \<longleftrightarrow> (\<exists>a b. s = a @ sub @ b)"
proof (induction s)
  case Nil
  then show ?case by simp
next
  case (Cons c cs)
  show ?case
  proof
    assume "contains (c # cs) sub"
    then consider "startswith (c # cs) sub" | "contains cs sub" by auto
    then show "\<exists>a b. c # cs = a @ sub @ b"
    proof cases
      case 1
      then obtain b where "c # cs = sub @ b" by (auto simp: startswith_iff)
      then have "c # cs = [] @ sub @ b" by simp
      then show ?thesis by blast
    next
      case 2
      then obtain a b where "cs = a @ sub @ b" using Cons.IH by blast
      then have "c # cs = (c # a) @ sub @ b" by simp
      then show ?thesis by blast
    qed
  next
    assume "\<exists>a b. c # cs = a @ sub @ b"
    then obtain a b where ab: "c # cs = a @ sub @ b" by blast
    show "contains (c # cs) sub"
    proof (cases a)
      case Nil
      with ab have "startswith (c # cs) sub" by (auto simp: startswith_iff)
      then show ?thesis by simp
    next
      case (Cons x a')
      with ab have "cs = a' @ sub @ b" by simp
      then have "contains cs sub" using Cons.IH by blast
      then show ?thesis by simp
    qed
  qed
qed

section \<open>Flow classification (C5)\<close>

text \<open>
  C5. For every URL, the classifier \<open>_looks_like_codex\<close> holds exactly when the URL contains
  both \<open>chatgpt.com\<close> and \<open>/backend-api/codex\<close> as substrings; one of them alone does not
  suffice. In particular \<open>https://chatgpt.com/backend-api/codex/responses\<close> is classified,
  and \<open>https://chatgpt.com/other\<close> and \<open>https://example.com/backend-api/codex\<close> are not,
  whatever the other fields of the flow are.
\<close>

theorem looks_like_codex_both_substrings:
  "(looks_like_codex flow \<longleftrightarrow>
      (\<exists>a b. pretty_url (flow_request flow) = a @ str ''chatgpt.com'' @ b) \<and>
      (\<exists>a b. pretty_url (flow_request flow) = a @ str ''/backend-api/codex'' @ b))
   \<and> looks_like_codex
        \<lparr>flow_id = i, flow_request = \<lparr>pretty_url = str ''https://chatgpt.com/backend-api/codex/responses'',
           request_method = m, request_text = t\<rparr>, flow_response = r\<rparr>
   \<and> \<not> looks_like_codex
        \<lparr>flow_id = i, flow_request = \<lparr>pretty_url = str ''https://chatgpt.com/other'',
           request_method = m, request_text = t\<rparr>, flow_response = r\<rparr>
   \<and> \<not> looks_like_codex
        \<lparr>flow_id = i, flow_request = \<lparr>pretty_url = str ''https://example.com/backend-api/codex'',
           request_method = m, request_text = t\<rparr>, flow_response = r\<rparr>"
proof (intro conjI)
  show "looks_like_codex flow \<longleftrightarrow>
      (\<exists>a b. pretty_url (flow_request flow) = a @ str ''chatgpt.com'' @ b) \<and>
      (\<exists>a b. pretty_url (flow_request flow) = a @ str ''/backend-api/codex'' @ b)"
    by (simp add: looks_like_codex_def Let_def contains_iff)
qed (simp_all add: looks_like_codex_def str_def startswith_def)

section \<open>The model extractor (C4)\<close>



section \<open>Evaluating concrete runs\<close>

lemmas text_defs = str_def is_linebreak_def isspace_def strip_def startswith_def
lemmas decoder_defs = json_loads_def json_loads_in_def recursion_room_def decode_error_def
  lex_idle_def is_digit_def emit_then_def flush_def
  int_token_def int_max_str_digits_def float_token_def hex_value_def unescape_def unit_done_def
  is_high_surrogate_def is_low_surrogate_def join_surrogates_def
lemmas producer_defs = sse_payload_def sse_line_def iter_sse_payloads_def
lemmas extract_defs = extract_model_def reasoning_effort_def resolve_reasoning_def effort_of_def
  py_or_def
lemmas flow_defs = codex_url_def sse_flow_def post_flow_def other_flow_def

lemma classified [simp]: "looks_like_codex (sse_flow body)" "looks_like_codex (post_flow body)"
  "\<not> looks_like_codex other_flow"
  by (simp_all add: looks_like_codex_def flow_defs text_defs)

lemma sse_flow_fields [simp]:
  "flow_id (sse_flow body) = str ''f1''"
  "pretty_url (flow_request (sse_flow body)) = codex_url"
  "flow_response (sse_flow body) =
     Some \<lparr>status_code = 200, headers = [(str ''content-type'', str ''text/event-stream'')],
           response_text = Some body\<rparr>"
  by (simp_all add: sse_flow_def)

lemma post_flow_fields [simp]:
  "flow_id (post_flow body) = str ''f2''"
  "request_method (flow_request (post_flow body)) = str ''POST''"
  "request_text (flow_request (post_flow body)) = Inr (Some body)"
  "flow_response (post_flow body) = None"
  by (simp_all add: post_flow_def)


section \<open>Field extraction on objects\<close>

lemma get_py_of: "get (PDict d) k PNone = Inr (py_of (map_of d k))"
  by (simp add: py_of_def)

lemma get_dict_returns: "isinstance_dict v \<Longrightarrow> \<exists>m. get v k d = Inr m"
  by (cases v) auto

lemma extract_model_dict: "\<exists>m. extract_model (PDict kvs) = Inr m"
  by (auto simp: extract_model_def get_dict_returns)

lemma effort_of_by_truth: "effort_of (PDict g) = Inr (effort_by_truth g)"
  by (simp add: effort_of_def py_or_def effort_by_truth_def get_py_of Let_def del: get.simps)

lemma effort_of_resolved:
  "(if isinstance_dict x then effort_of x else Inr PNone)
     = Inr (case x of PDict g \<Rightarrow> effort_by_truth g | _ \<Rightarrow> PNone)"
  by (cases x) (simp_all add: effort_of_by_truth)

lemma resolve_reasoning_by_truth:
  assumes "truthy (py_of (map_of r (str ''reasoning'')))
           \<or> (case map_of r (str ''metadata'') of None \<Rightarrow> True | Some m \<Rightarrow> isinstance_dict m)"
  shows "resolve_reasoning (PDict r) = Inr (reasoning_by_truth r)"
proof (cases "truthy (py_of (map_of r (str ''reasoning'')))")
  case True
  then show ?thesis
    by (simp add: resolve_reasoning_def py_or_def reasoning_by_truth_def get_py_of Let_def
        del: get.simps)
next
  case False
  with assms
  have m: "case map_of r (str ''metadata'') of None \<Rightarrow> True | Some m \<Rightarrow> isinstance_dict m"
    by simp
  show ?thesis
  proof (cases "map_of r (str ''metadata'')")
    case None
    with False show ?thesis
      by (simp add: resolve_reasoning_def py_or_def reasoning_by_truth_def py_of_def)
  next
    case (Some v)
    with m obtain mm where "v = PDict mm" by (cases v) auto
    with Some False show ?thesis
      by (simp add: resolve_reasoning_def py_or_def reasoning_by_truth_def py_of_def)
  qed
qed

lemma reasoning_effort_of_response:
  assumes "map_of payload (str ''response'') = Some (PDict r)"
    and "resolve_reasoning (PDict r) = Inr x"
  shows "reasoning_effort (PDict payload)
           = Inr (case x of PDict g \<Rightarrow> effort_by_truth g | _ \<Rightarrow> PNone)"
  using assms by (simp add: reasoning_effort_def effort_of_resolved)

lemma reasoning_effort_without_response:
  assumes "\<And>r. map_of payload (str ''response'') \<noteq> Some (PDict r)"
  shows "reasoning_effort (PDict payload) = Inr PNone"
proof (cases "map_of payload (str ''response'')")
  case None
  then show ?thesis by (simp add: reasoning_effort_def)
next
  case (Some v)
  with assms have "\<not> isinstance_dict v"
    by (cases v) auto
  with Some show ?thesis
    by (simp add: reasoning_effort_def)
qed

lemma reasoning_effort_readable:
  assumes "metadata_readable payload"
  shows "\<exists>v. reasoning_effort (PDict payload) = Inr v"
proof (cases "\<exists>r. map_of payload (str ''response'') = Some (PDict r)")
  case True
  then obtain r where r: "map_of payload (str ''response'') = Some (PDict r)" by blast
  with assms have "resolve_reasoning (PDict r) = Inr (reasoning_by_truth r)"
    by (intro resolve_reasoning_by_truth) (simp add: metadata_readable_def)
  with r show ?thesis
    using reasoning_effort_of_response by blast
next
  case False
  then show ?thesis
    using reasoning_effort_without_response by blast
qed


section \<open>The response callback on unexpected JSON shapes (C1)\<close>

text \<open>
  Where the response callback does return: the body text is there, the decoder raises
  nothing but \<open>JSONDecodeError\<close>, and every value it returns is an object on which
  \<open>response.metadata\<close>, where it is read, is an object.
\<close>

lemma sse_loop_returns:
  assumes "\<forall>s \<in> set tr. (\<forall>e. s \<noteq> Raise e)
             \<and> (\<forall>t p. s = Yield t p \<longrightarrow> (\<exists>kvs. p = PDict kvs \<and> metadata_readable kvs))"
  shows "snd (sse_loop flow tr) = None"
  using assms
proof (induction tr)
  case Nil
  show ?case by simp
next
  case (Cons s tr)
  then have ih: "snd (sse_loop flow tr) = None" by simp
  obtain es r where run: "sse_loop flow tr = (es, r)"
    by (cases "sse_loop flow tr")
  with ih have r: "r = None" by simp
  show ?case
  proof (cases s)
    case Skip
    with ih show ?thesis by simp
  next
    case (Warn exc chunk)
    with run r show ?thesis by simp
  next
    case (Yield t p)
    with Cons.prems obtain kvs where p: "p = PDict kvs" "metadata_readable kvs" by auto
    obtain m where m: "extract_model (PDict kvs) = Inr m"
      using extract_model_dict by blast
    obtain v where v: "reasoning_effort (PDict kvs) = Inr v"
      using reasoning_effort_readable [OF p(2)] by blast
    from run r show ?thesis
      by (simp add: Yield p m v)
  next
    case (Raise e)
    with Cons.prems show ?thesis by auto
  qed
qed

lemma iter_lines_well_shaped:
  assumes "\<And>s p. loads s = Loaded p \<Longrightarrow> \<exists>kvs. p = PDict kvs \<and> metadata_readable kvs"
    and "\<And>s e. loads s \<noteq> Other_error e"
  shows "\<forall>s \<in> set (iter_lines loads ls). (\<forall>e. s \<noteq> Raise e)
             \<and> (\<forall>t p. s = Yield t p \<longrightarrow> (\<exists>kvs. p = PDict kvs \<and> metadata_readable kvs))"
proof (induction ls)
  case Nil
  show ?case by simp
next
  case (Cons l ls)
  have step: "(\<forall>e. sse_line loads l \<noteq> Raise e)
     \<and> (\<forall>t p. sse_line loads l = Yield t p \<longrightarrow> (\<exists>kvs. p = PDict kvs \<and> metadata_readable kvs))"
    using assms by (fastforce simp: sse_line_def Let_def split: if_splits sum.splits loaded.splits)
  with Cons.IH show ?case
    by (cases "sse_line loads l") auto
qed

lemma response_returns_on_object_payloads:
  assumes "\<And>s p. loads s = Loaded p \<Longrightarrow> \<exists>kvs. p = PDict kvs \<and> metadata_readable kvs"
    and "\<And>s e. loads s \<noteq> Other_error e"
    and "\<And>resp. flow_response flow = Some resp \<Longrightarrow> response_text resp \<noteq> None"
  shows "raised (response loads flow) = None"
proof (cases "flow_response flow")
  case None
  then show ?thesis by (simp add: response_def)
next
  case (Some resp)
  with assms(3) obtain body where body: "response_text resp = Some body" by auto
  obtain es r where run: "sse_loop flow (iter_sse_payloads loads body) = (es, r)"
    by (cases "sse_loop flow (iter_sse_payloads loads body)")
  have "snd (sse_loop flow (iter_sse_payloads loads body)) = None"
    unfolding iter_sse_payloads_def
    by (rule sse_loop_returns) (rule iter_lines_well_shaped [OF assms(1) assms(2)])
  with run have "r = None" by simp
  with Some body run show ?thesis
    by (simp add: response_def Let_def)
qed

text \<open>
  C1 says that the response callback raises nothing, whatever the body text is, also when a
  \<open>data:\<close> line decodes to a value that is no object or has a nested field of the wrong
  type. The callback does raise there: the body \<open>data: 1\<close> decodes to the integer \<open>1\<close>, on
  which \<open>parsed.get\<close> raises \<open>AttributeError\<close> inside the producer, and the body
  \<open>data: {"response": {"metadata": 5}}\<close> reaches \<open>.get("reasoning")\<close> on the integer \<open>5\<close>.
  Both exceptions leave the callback.
\<close>

theorem response_raises_on_unexpected_shape:
  "raised (response json_loads (sse_flow (str ''data: 1''))) = Some AttributeError
   \<and> raised (response json_loads
         (sse_flow (str ''data: {\"response\": {\"metadata\": 5}}''))) = Some AttributeError"
proof
  show "raised (response json_loads (sse_flow (str ''data: 1''))) = Some AttributeError"
    by (simp add: response_def Let_def text_defs decoder_defs producer_defs)
  show "raised (response json_loads
          (sse_flow (str ''data: {\"response\": {\"metadata\": 5}}''))) = Some AttributeError"
    by (simp add: response_def Let_def text_defs decoder_defs producer_defs extract_defs)
qed


section \<open>The request callback (C2)\<close>

text \<open>
  The part of C2 that holds: when the body text cannot be obtained or the decoder raises on
  it, whatever it raises, the request callback returns without a log record and without
  raising.
\<close>

lemma request_silent_on_decode_failure:
  assumes "request_text (flow_request flow) = Inl e
           \<or> request_text (flow_request flow) = Inr None
           \<or> (\<exists>body. request_text (flow_request flow) = Inr (Some body)
                 \<and> (\<forall>p. loads body \<noteq> Loaded p))"
  shows "raised (request loads flow) = None
         \<and> set (effects (request loads flow)) \<subseteq> {Get_text}"
  using assms by (auto simp: request_def split: loaded.splits)

text \<open>
  C2 says that the request inspector returns silently when the body fails to parse, and
  that it never raises, for any request body. The second part fails: the body \<open>[]\<close> of a
  classified \<open>POST\<close> flow parses, to a list, and \<open>payload.get\<close>, which is evaluated after
  the \<open>try\<close>, raises \<open>AttributeError\<close> out of the callback.
\<close>

theorem request_raises_on_non_object_body:
  "request json_loads (post_flow (str ''[]''))
     = \<lparr>flow_after = post_flow (str ''[]''), effects = [Get_text],
        raised = Some AttributeError\<rparr>"
  by (simp add: request_def text_defs decoder_defs)


section \<open>The summary record of the response callback (C8)\<close>

text \<open>
  C8 as stated, for every flow handed to the response callback, fails on a flow that has
  no response: the guard \<open>if not flow.response: return\<close> comes before the log call, and
  nothing is logged.
\<close>

theorem response_summary_needs_a_response:
  "effects (response json_loads (post_flow (str ''{}''))) = []"
  by (simp add: response_def)

text \<open>
  C8, amended. For every flow that carries a response, the first effect of the response
  callback is the summary record with the flow id, the status code and the headers,
  whether or not the flow is classified, and whatever the callback does afterwards.
\<close>

theorem response_logs_summary_first:
  "flow_response flow = Some resp \<Longrightarrow>
     \<exists>rest. effects (response loads flow)
       = Info_response (flow_id flow) (status_code resp) (headers resp) # rest"
  by (auto simp: response_def Let_def split: option.splits prod.splits)

theorem response_logs_summary_first_witness:
  "flow_response other_flow = Some \<lparr>status_code = 404, headers = [], response_text = Some []\<rparr>
   \<and> (\<exists>rest. effects (response json_loads other_flow) = Info_response (str ''f3'') 404 [] # rest)"
proof -
  have r: "flow_response other_flow
             = Some \<lparr>status_code = 404, headers = [], response_text = Some []\<rparr>"
    by (simp add: other_flow_def)
  have i: "flow_id other_flow = str ''f3''"
    by (simp add: other_flow_def)
  from response_logs_summary_first [OF r, of json_loads] show ?thesis
    using r i by simp
qed


section \<open>Frame and body reads (C9)\<close>

lemma sse_loop_no_read: "Get_text \<notin> set (fst (sse_loop flow tr))"
proof (induction tr)
  case Nil
  show ?case by simp
next
  case (Cons s tr)
  then show ?case
    by (cases s) (auto split: sum.splits prod.splits)
qed

lemma count_list_0: "x \<notin> set xs \<Longrightarrow> count_list xs x = 0"
  by (induction xs) auto

text \<open>
  C9. Both callbacks leave the flow as they found it, and each reads a body text at most
  once in one invocation, also when it raises.
\<close>

theorem callbacks_keep_flow_and_read_once:
  "flow_after (response loads flow) = flow
   \<and> flow_after (request loads flow) = flow
   \<and> count_list (effects (response loads flow)) Get_text \<le> 1
   \<and> count_list (effects (request loads' flow)) Get_text \<le> 1"
proof (intro conjI)
  show "flow_after (response loads flow) = flow"
    by (simp add: response_def Let_def split: option.splits prod.splits)
  show "flow_after (request loads flow) = flow"
    by (simp add: request_def split: option.splits sum.splits loaded.splits)
  show "count_list (effects (response loads flow)) Get_text \<le> 1"
  proof (cases "flow_response flow")
    case None
    then show ?thesis by (simp add: response_def)
  next
    case (Some resp)
    show ?thesis
    proof (cases "response_text resp")
      case None
      with Some show ?thesis by (simp add: response_def Let_def)
    next
      case (Some body)
      obtain es r where run: "sse_loop flow (iter_sse_payloads loads body) = (es, r)"
        by (cases "sse_loop flow (iter_sse_payloads loads body)")
      have "Get_text \<notin> set (fst (sse_loop flow (iter_sse_payloads loads body)))"
        by (rule sse_loop_no_read)
      with run have "count_list es Get_text = 0"
        by (simp add: count_list_0)
      with run Some \<open>flow_response flow = Some resp\<close> show ?thesis
        by (simp add: response_def Let_def)
    qed
  qed
  show "count_list (effects (request loads' flow)) Get_text \<le> 1"
    by (simp add: request_def split: option.splits sum.splits loaded.splits)
qed


section \<open>The reasoning effort (C3)\<close>

text \<open>
  C3 as stated goes by presence: the result is the \<open>effort\<close> field of the resolved object,
  and \<open>effort_level\<close> only if \<open>effort\<close> is absent. On the payload
  \<open>{"response": {"reasoning": {"effort": "", "effort_level": "low"}}}\<close> the \<open>effort\<close> field is
  present and is the empty string, so the statement gives the empty string; the code gives
  \<open>low\<close>, because \<open>or\<close> passes over every value that is false as a truth value.
\<close>

theorem reasoning_effort_present_falsy_effort:
  "reasoning_effort
     (PDict [(str ''response'',
        PDict [(str ''reasoning'',
          PDict [(str ''effort'', PStr []), (str ''effort_level'', PStr (str ''low''))])])])
     = Inr (PStr (str ''low''))
   \<and> stated_reasoning_effort
     [(str ''response'',
        PDict [(str ''reasoning'',
          PDict [(str ''effort'', PStr []), (str ''effort_level'', PStr (str ''low''))])])]
     = Some (PStr [])"
  by (simp add: extract_defs stated_reasoning_effort_def stated_reasoning_def stated_effort_def
      str_def)

text \<open>
  C3, amended. For every decoded payload object on which \<open>response.metadata\<close>, where it is
  read, is an object: the reasoning effort is \<open>None\<close> unless \<open>response\<close> is an object; the
  reasoning value is \<open>response.reasoning\<close> when that is true as a truth value, and
  \<open>response.metadata.reasoning\<close> otherwise; when the reasoning value is an object, the result
  is its \<open>effort\<close> when that is true as a truth value and its \<open>effort_level\<close> otherwise. The
  witness is the payload \<open>{"response": {"metadata": {"reasoning": {"effort_level": "low"}}}}\<close>,
  whose result is \<open>low\<close>.
\<close>

theorem reasoning_effort_by_truth_value:
  "metadata_readable payload \<Longrightarrow>
     reasoning_effort (PDict payload) = Inr (reasoning_effort_by_truth payload)"
proof -
  assume readable: "metadata_readable payload"
  show ?thesis
  proof (cases "\<exists>r. map_of payload (str ''response'') = Some (PDict r)")
    case True
    then obtain r where r: "map_of payload (str ''response'') = Some (PDict r)" by blast
    with readable have "resolve_reasoning (PDict r) = Inr (reasoning_by_truth r)"
      by (intro resolve_reasoning_by_truth) (simp add: metadata_readable_def)
    with r have "reasoning_effort (PDict payload)
        = Inr (case reasoning_by_truth r of PDict g \<Rightarrow> effort_by_truth g | _ \<Rightarrow> PNone)"
      by (rule reasoning_effort_of_response)
    with r show ?thesis
      by (simp add: reasoning_effort_by_truth_def)
  next
    case False
    then have none: "\<And>r. map_of payload (str ''response'') \<noteq> Some (PDict r)" by blast
    then have "reasoning_effort (PDict payload) = Inr PNone"
      by (rule reasoning_effort_without_response)
    moreover have "reasoning_effort_by_truth payload = PNone"
      using none
      by (cases "map_of payload (str ''response'')")
         (auto simp: reasoning_effort_by_truth_def split: py.splits)
    ultimately show ?thesis by simp
  qed
qed

theorem reasoning_effort_by_truth_value_witness:
  "metadata_readable
     [(str ''response'', PDict [(str ''metadata'',
        PDict [(str ''reasoning'', PDict [(str ''effort_level'', PStr (str ''low''))])])])]
   \<and> reasoning_effort (PDict
     [(str ''response'', PDict [(str ''metadata'',
        PDict [(str ''reasoning'', PDict [(str ''effort_level'', PStr (str ''low''))])])])])
     = Inr (PStr (str ''low''))"
proof -
  let ?p = "[(str ''response'', PDict [(str ''metadata'',
        PDict [(str ''reasoning'', PDict [(str ''effort_level'', PStr (str ''low''))])])])]"
  have m: "metadata_readable ?p"
    by (simp add: metadata_readable_def py_of_def str_def)
  have v: "reasoning_effort_by_truth ?p = PStr (str ''low'')"
    by (simp add: reasoning_effort_by_truth_def reasoning_by_truth_def effort_by_truth_def
        py_of_def str_def)
  from reasoning_effort_by_truth_value [OF m] m v show ?thesis by simp
qed


section \<open>False values at the fallback points (C10)\<close>

lemma key_distinct [simp]:
  "str ''model'' \<noteq> str ''response''" "str ''response'' \<noteq> str ''model''"
  "str ''reasoning'' \<noteq> str ''metadata''" "str ''metadata'' \<noteq> str ''reasoning''"
  "str ''effort'' \<noteq> str ''effort_level''" "str ''effort_level'' \<noteq> str ''effort''"
  by (simp_all add: str_def)

text \<open>
  C10. At each of the three fallback points a key bound to a value that is false as a truth
  value gives the same result as the same object without the key, and that result is the
  fallback source: \<open>response.model\<close> for the top-level \<open>model\<close>, \<open>response.metadata.reasoning\<close>
  for \<open>response.reasoning\<close>, and \<open>effort_level\<close> for \<open>effort\<close>.
\<close>

theorem falsy_value_as_absent_key:
  "\<not> truthy v \<Longrightarrow>
     extract_model (PDict (AList.update (str ''model'') v payload))
       = extract_model (PDict (AList.delete (str ''model'') payload))
     \<and> extract_model (PDict (AList.update (str ''model'') v payload))
       = Inr (py_of (spec_response_model payload))
     \<and> resolve_reasoning (PDict (AList.update (str ''reasoning'') v r))
       = resolve_reasoning (PDict (AList.delete (str ''reasoning'') r))
     \<and> resolve_reasoning (PDict (AList.update (str ''reasoning'') v r))
       = (case get (PDict r) (str ''metadata'') (PDict []) of
            Inl e \<Rightarrow> Inl e
          | Inr metadata \<Rightarrow> get metadata (str ''reasoning'') PNone)
     \<and> effort_of (PDict (AList.update (str ''effort'') v g))
       = effort_of (PDict (AList.delete (str ''effort'') g))
     \<and> effort_of (PDict (AList.update (str ''effort'') v g))
       = get (PDict g) (str ''effort_level'') PNone"
proof (intro conjI)
  assume v: "\<not> truthy v"
  have m1: "extract_model (PDict (AList.update (str ''model'') v payload))
       = Inr (py_of (spec_response_model payload))"
    using v
    by (auto simp: extract_model_def update_conv' spec_response_model_def py_of_def
        split: option.splits py.splits)
  have m2: "extract_model (PDict (AList.delete (str ''model'') payload))
       = Inr (py_of (spec_response_model payload))"
    by (auto simp: extract_model_def delete_conv' spec_response_model_def py_of_def
        split: option.splits py.splits)
  show "extract_model (PDict (AList.update (str ''model'') v payload))
       = extract_model (PDict (AList.delete (str ''model'') payload))"
    using m1 m2 by simp
  show "extract_model (PDict (AList.update (str ''model'') v payload))
       = Inr (py_of (spec_response_model payload))"
    by (rule m1)
  have r1: "resolve_reasoning (PDict (AList.update (str ''reasoning'') v r))
       = (case get (PDict r) (str ''metadata'') (PDict []) of
            Inl e \<Rightarrow> Inl e
          | Inr metadata \<Rightarrow> get metadata (str ''reasoning'') PNone)"
    using v by (simp add: resolve_reasoning_def py_or_def update_conv')
  have r2: "resolve_reasoning (PDict (AList.delete (str ''reasoning'') r))
       = (case get (PDict r) (str ''metadata'') (PDict []) of
            Inl e \<Rightarrow> Inl e
          | Inr metadata \<Rightarrow> get metadata (str ''reasoning'') PNone)"
    by (simp add: resolve_reasoning_def py_or_def delete_conv')
  show "resolve_reasoning (PDict (AList.update (str ''reasoning'') v r))
       = resolve_reasoning (PDict (AList.delete (str ''reasoning'') r))"
    using r1 r2 by simp
  show "resolve_reasoning (PDict (AList.update (str ''reasoning'') v r))
       = (case get (PDict r) (str ''metadata'') (PDict []) of
            Inl e \<Rightarrow> Inl e
          | Inr metadata \<Rightarrow> get metadata (str ''reasoning'') PNone)"
    by (rule r1)
  have e1: "effort_of (PDict (AList.update (str ''effort'') v g))
       = get (PDict g) (str ''effort_level'') PNone"
    using v by (simp add: effort_of_def py_or_def update_conv')
  have e2: "effort_of (PDict (AList.delete (str ''effort'') g))
       = get (PDict g) (str ''effort_level'') PNone"
    by (simp add: effort_of_def py_or_def delete_conv')
  show "effort_of (PDict (AList.update (str ''effort'') v g))
       = effort_of (PDict (AList.delete (str ''effort'') g))"
    using e1 e2 by simp
  show "effort_of (PDict (AList.update (str ''effort'') v g))
       = get (PDict g) (str ''effort_level'') PNone"
    by (rule e1)
qed

theorem falsy_value_as_absent_key_witness:
  "\<not> truthy (PStr [])
   \<and> extract_model (PDict [(str ''model'', PStr []),
        (str ''response'', PDict [(str ''model'', PStr (str ''gpt-5-mini''))])])
       = Inr (PStr (str ''gpt-5-mini''))
   \<and> effort_of (PDict [(str ''effort'', PStr []), (str ''effort_level'', PStr (str ''low''))])
       = Inr (PStr (str ''low''))"
proof -
  let ?p = "[(str ''model'', PInt 7),
             (str ''response'', PDict [(str ''model'', PStr (str ''gpt-5-mini''))])]"
  let ?g = "[(str ''effort'', PStr (str ''high'')), (str ''effort_level'', PStr (str ''low''))]"
  have f: "\<not> truthy (PStr [])" by simp
  note w = falsy_value_as_absent_key [OF f, of ?p "[]" ?g]
  have a: "extract_model (PDict (AList.update (str ''model'') (PStr []) ?p))
             = Inr (py_of (spec_response_model ?p))"
    using w by blast
  have b: "effort_of (PDict (AList.update (str ''effort'') (PStr []) ?g))
             = get (PDict ?g) (str ''effort_level'') PNone"
    using w by blast
  have s: "spec_response_model ?p = Some (PStr (str ''gpt-5-mini''))"
    by (simp add: spec_response_model_def)
  show ?thesis
    using f a b s by (simp add: py_of_def)
qed


section \<open>The SSE producer (C6)\<close>

lemma sse_line_Yield:
  "sse_line loads raw = Yield t p \<Longrightarrow>
     startswith (strip raw) (str ''data:'')
     \<and> sse_payload (strip raw) \<noteq> []
     \<and> sse_payload (strip raw) \<noteq> str ''[DONE]''
     \<and> loads (sse_payload (strip raw)) = Loaded p
     \<and> get p (str ''type'') (PStr (str ''unknown'')) = Inr t"
  by (auto simp: sse_line_def Let_def split: if_splits sum.splits loaded.splits)

lemma sse_line_not_data:
  "\<not> startswith (strip raw) (str ''data:'') \<Longrightarrow> sse_line loads raw = Skip"
  by (simp add: sse_line_def)

lemma sse_line_done:
  "sse_payload (strip raw) = str ''[DONE]'' \<Longrightarrow> sse_line loads raw = Skip"
  by (simp add: sse_line_def Let_def)

lemma sse_line_decode_failure:
  "startswith (strip raw) (str ''data:'') \<Longrightarrow> sse_payload (strip raw) = chunk \<Longrightarrow>
   chunk \<noteq> [] \<Longrightarrow> chunk \<noteq> str ''[DONE]'' \<Longrightarrow> loads chunk = JSONDecodeError exc \<Longrightarrow>
   sse_line loads raw = Warn exc chunk"
  by (simp add: sse_line_def Let_def)

lemma sse_line_cong:
  "(\<And>s. s \<noteq> str ''[DONE]'' \<Longrightarrow> loads s = loads' s) \<Longrightarrow> sse_line loads raw = sse_line loads' raw"
  by (simp add: sse_line_def Let_def)

lemma yielded_iter_lines:
  "(t, p) \<in> set (yielded (iter_lines loads ls)) \<Longrightarrow> \<exists>raw \<in> set ls. sse_line loads raw = Yield t p"
proof (induction ls)
  case Nil
  then show ?case by simp
next
  case (Cons l ls)
  then show ?case
    by (cases "sse_line loads l") auto
qed

lemma iter_lines_all_skipped:
  "\<forall>raw \<in> set ls. sse_line loads raw = Skip \<Longrightarrow> iter_lines loads ls = []"
  by (induction ls) auto

lemma iter_lines_drop_skipped:
  "sse_line loads raw = Skip \<Longrightarrow>
     iter_lines loads (before @ raw # after) = iter_lines loads (before @ after)"
proof (induction before)
  case Nil
  then show ?case by simp
next
  case (Cons l ls)
  then show ?case
    by (cases "sse_line loads l") auto
qed

lemma iter_lines_cong:
  "(\<And>raw. sse_line loads raw = sse_line loads' raw) \<Longrightarrow> iter_lines loads ls = iter_lines loads' ls"
  by (induction ls) (auto split: sse_step.splits)

lemma iter_lines_append:
  "\<forall>e. Raise e \<notin> set (iter_lines loads before) \<Longrightarrow>
     iter_lines loads (before @ after) = iter_lines loads before @ iter_lines loads after"
proof (induction before)
  case Nil
  then show ?case by simp
next
  case (Cons l ls)
  then show ?case
    by (cases "sse_line loads l") auto
qed

text \<open>
  C6. For every body text and every decoder: each pair the producer yields comes from a
  line of the body whose trimmed text begins with \<open>data:\<close> and whose payload text is
  neither empty nor \<open>[DONE]\<close>, and is the decoded payload with its \<open>type\<close>; a body without
  \<open>data:\<close> lines yields nothing at all; a line whose payload text is \<open>[DONE]\<close>, such as
  \<open>data: [DONE]\<close>, can be removed without changing what the producer does; and the producer
  does the same with any two decoders that agree off \<open>[DONE]\<close>, so the sentinel is never
  passed to the decoder.
\<close>

theorem sse_producer_yields_data_payloads_only:
  "((t, p) \<in> set (yielded (iter_sse_payloads loads body)) \<longrightarrow>
      (\<exists>raw \<in> set (splitlines body).
         startswith (strip raw) (str ''data:'')
         \<and> sse_payload (strip raw) \<noteq> []
         \<and> sse_payload (strip raw) \<noteq> str ''[DONE]''
         \<and> loads (sse_payload (strip raw)) = Loaded p
         \<and> get p (str ''type'') (PStr (str ''unknown'')) = Inr t))
   \<and> ((\<forall>raw \<in> set (splitlines body). \<not> startswith (strip raw) (str ''data:'')) \<longrightarrow>
        iter_sse_payloads loads body = [])
   \<and> (sse_payload (strip line) = str ''[DONE]'' \<longrightarrow>
        iter_lines loads (before @ line # after) = iter_lines loads (before @ after))
   \<and> sse_line loads (str ''data: [DONE]'') = Skip
   \<and> ((\<forall>s. s \<noteq> str ''[DONE]'' \<longrightarrow> loads s = loads' s) \<longrightarrow>
        iter_sse_payloads loads body = iter_sse_payloads loads' body)"
proof (intro conjI impI)
  assume "(t, p) \<in> set (yielded (iter_sse_payloads loads body))"
  then obtain raw where "raw \<in> set (splitlines body)" "sse_line loads raw = Yield t p"
    unfolding iter_sse_payloads_def using yielded_iter_lines by blast
  then show "\<exists>raw \<in> set (splitlines body).
         startswith (strip raw) (str ''data:'')
         \<and> sse_payload (strip raw) \<noteq> []
         \<and> sse_payload (strip raw) \<noteq> str ''[DONE]''
         \<and> loads (sse_payload (strip raw)) = Loaded p
         \<and> get p (str ''type'') (PStr (str ''unknown'')) = Inr t"
    using sse_line_Yield by blast
next
  assume "\<forall>raw \<in> set (splitlines body). \<not> startswith (strip raw) (str ''data:'')"
  then have "\<forall>raw \<in> set (splitlines body). sse_line loads raw = Skip"
    by (simp add: sse_line_not_data)
  then show "iter_sse_payloads loads body = []"
    unfolding iter_sse_payloads_def by (rule iter_lines_all_skipped)
next
  assume "sse_payload (strip line) = str ''[DONE]''"
  then have "sse_line loads line = Skip" by (rule sse_line_done)
  then show "iter_lines loads (before @ line # after) = iter_lines loads (before @ after)"
    by (rule iter_lines_drop_skipped)
next
  show "sse_line loads (str ''data: [DONE]'') = Skip"
    by (rule sse_line_done) (simp add: sse_payload_def text_defs)
next
  assume "\<forall>s. s \<noteq> str ''[DONE]'' \<longrightarrow> loads s = loads' s"
  then have "\<And>raw. sse_line loads raw = sse_line loads' raw"
    by (intro sse_line_cong) blast
  then show "iter_sse_payloads loads body = iter_sse_payloads loads' body"
    unfolding iter_sse_payloads_def by (rule iter_lines_cong)
qed

theorem sse_producer_yields_data_payloads_only_witness:
  "iter_sse_payloads json_loads (str ''event: ping'' @ [10] @ str '': keep-alive'') = []
   \<and> iter_lines json_loads [str ''data: {\"type\": \"a\"}'', str ''data: [DONE]'']
       = [Yield (PStr (str ''a'')) (PDict [(str ''type'', PStr (str ''a''))])]
   \<and> iter_sse_payloads (json_loads (str ''[DONE]'' := Loaded PNone)) (str ''data: {\"type\": \"a\"}'')
       = [Yield (PStr (str ''a'')) (PDict [(str ''type'', PStr (str ''a''))])]"
proof -
  let ?ok = "str ''data: {\"type\": \"a\"}''"
  let ?item = "Yield (PStr (str ''a'')) (PDict [(str ''type'', PStr (str ''a''))]) :: unit sse_step"
  note w = sse_producer_yields_data_payloads_only
    [where loads = json_loads and loads' = "json_loads (str ''[DONE]'' := Loaded PNone)"
       and line = "str ''data: [DONE]''" and before = "[?ok]" and after = "[]"]
  have lines: "splitlines (str ''event: ping'' @ [10] @ str '': keep-alive'')
                 = [str ''event: ping'', str '': keep-alive'']"
    by (simp add: text_defs)
  have no_data: "\<forall>raw \<in> set (splitlines (str ''event: ping'' @ [10] @ str '': keep-alive'')).
                   \<not> startswith (strip raw) (str ''data:'')"
    unfolding lines by (simp add: text_defs)
  have first: "iter_sse_payloads json_loads (str ''event: ping'' @ [10] @ str '': keep-alive'') = []"
    using w [where body = "str ''event: ping'' @ [10] @ str '': keep-alive''"] no_data by blast
  have done_payload: "sse_payload (strip (str ''data: [DONE]'')) = str ''[DONE]''"
    by (simp add: sse_payload_def text_defs)
  have drop: "iter_lines json_loads ([?ok] @ str ''data: [DONE]'' # [])
                = iter_lines json_loads ([?ok] @ [])"
    using w [where body = "[]"] done_payload by blast
  have one: "iter_lines json_loads [?ok] = [?item]"
    by (simp add: text_defs decoder_defs sse_payload_def sse_line_def)
  have second: "iter_lines json_loads [?ok, str ''data: [DONE]''] = [?item]"
    using drop one by simp
  have agree: "\<forall>s. s \<noteq> str ''[DONE]'' \<longrightarrow>
                 json_loads s = (json_loads (str ''[DONE]'' := Loaded PNone)) s"
    by simp
  have same: "iter_sse_payloads json_loads ?ok
                = iter_sse_payloads (json_loads (str ''[DONE]'' := Loaded PNone)) ?ok"
    using w [where body = ?ok] agree by blast
  have run: "iter_sse_payloads json_loads ?ok = [?item]"
    using one by (simp add: iter_sse_payloads_def text_defs)
  show ?thesis
    using first second same run by simp
qed

section \<open>Decode failures in the producer (C7)\<close>

text \<open>
  The part of C7 that holds, for every decoder. When the decoder raises \<open>JSONDecodeError\<close>
  on the payload text of a \<open>data:\<close> line, the producer gives a warning that carries the
  error and the payload text, yields nothing for the line, and goes on with the lines after
  it exactly as it would without the line; the warning reaches the logging facility in the
  response callback.
\<close>

lemma json_decode_error_warns_and_continues:
  assumes "startswith (strip raw) (str ''data:'')"
    and "sse_payload (strip raw) = chunk"
    and "chunk \<noteq> []"
    and "chunk \<noteq> str ''[DONE]''"
    and "loads chunk = JSONDecodeError exc"
  shows "iter_lines loads (raw # rest) = Warn exc chunk # iter_lines loads rest
    \<and> yielded (iter_lines loads (raw # rest)) = yielded (iter_lines loads rest)
    \<and> ((\<forall>e. Raise e \<notin> set (iter_lines loads before)) \<longrightarrow>
         iter_lines loads (before @ raw # rest)
           = iter_lines loads before @ Warn exc chunk # iter_lines loads rest)
    \<and> fst (sse_loop flow (iter_lines loads (raw # rest)))
         = Warn_decode exc chunk # fst (sse_loop flow (iter_lines loads rest))
    \<and> snd (sse_loop flow (iter_lines loads (raw # rest)))
         = snd (sse_loop flow (iter_lines loads rest))"
proof -
  have w: "sse_line loads raw = Warn exc chunk"
    using assms by (rule sse_line_decode_failure)
  then have one: "iter_lines loads (raw # rest) = Warn exc chunk # iter_lines loads rest"
    by simp
  show ?thesis
  proof (intro conjI impI)
    show "iter_lines loads (raw # rest) = Warn exc chunk # iter_lines loads rest"
      by (rule one)
    show "yielded (iter_lines loads (raw # rest)) = yielded (iter_lines loads rest)"
      unfolding one by simp
    show "iter_lines loads (before @ raw # rest)
           = iter_lines loads before @ Warn exc chunk # iter_lines loads rest"
      if "\<forall>e. Raise e \<notin> set (iter_lines loads before)"
      unfolding iter_lines_append [OF that] one by simp
    show "fst (sse_loop flow (iter_lines loads (raw # rest)))
         = Warn_decode exc chunk # fst (sse_loop flow (iter_lines loads rest))"
      unfolding one by (simp split: prod.splits)
    show "snd (sse_loop flow (iter_lines loads (raw # rest)))
         = snd (sse_loop flow (iter_lines loads rest))"
      unfolding one by (simp split: prod.splits)
  qed
qed

text \<open>
  The body of the specification: the line \<open>data: {not json\<close>, on which \<open>json.loads\<close> raises
  \<open>JSONDecodeError\<close>, followed by a valid line, whose pair is yielded.
\<close>

lemma not_json_warns_and_continues:
  "json_loads (str ''{not json'') = JSONDecodeError ()
   \<and> iter_sse_payloads json_loads
         (str ''data: {not json'' @ [10] @ str ''data: {\"type\": \"a\", \"model\": \"m\"}'')
       = [Warn () (str ''{not json''),
          Yield (PStr (str ''a''))
            (PDict [(str ''type'', PStr (str ''a'')), (str ''model'', PStr (str ''m''))])]"
proof -
  let ?bad = "str ''data: {not json''"
  let ?ok = "str ''data: {\"type\": \"a\", \"model\": \"m\"}''"
  have h1: "startswith (strip ?bad) (str ''data:'')"
    by (simp add: text_defs)
  have h2: "sse_payload (strip ?bad) = str ''{not json''"
    by (simp add: sse_payload_def text_defs)
  have h3: "str ''{not json'' \<noteq> []"
    by (simp add: str_def)
  have h4: "str ''{not json'' \<noteq> str ''[DONE]''"
    by (simp add: str_def)
  have h5: "json_loads (str ''{not json'') = JSONDecodeError ()"
    by (simp add: text_defs decoder_defs)
  have lines: "splitlines (?bad @ [10] @ ?ok) = [?bad, ?ok]"
    by (simp add: text_defs)
  have rest: "iter_lines json_loads [?ok]
                = [Yield (PStr (str ''a''))
                     (PDict [(str ''type'', PStr (str ''a'')), (str ''model'', PStr (str ''m''))])]"
    by (simp add: text_defs decoder_defs sse_payload_def sse_line_def)
  from json_decode_error_warns_and_continues
    [where loads = json_loads and raw = ?bad and chunk = "str ''{not json''" and exc = "()"
       and rest = "[?ok]", OF h1 h2 h3 h4 h5]
  have "iter_lines json_loads [?bad, ?ok] = Warn () (str ''{not json'') # iter_lines json_loads [?ok]"
    by blast
  then show ?thesis
    unfolding iter_sse_payloads_def lines rest using h5 by simp
qed

text \<open>
  The part that fails. \<open>json.loads\<close> raises other exceptions than \<open>JSONDecodeError\<close>, and
  line 37 catches that one only. For every decoder: a \<open>data:\<close> line on which the decoder
  raises another exception ends the producer there, without a warning, and the lines after
  it are never read; the exception goes through the loop of the response callback.
\<close>

lemma other_error_ends_producer:
  assumes "startswith (strip raw) (str ''data:'')"
    and "sse_payload (strip raw) = chunk"
    and "chunk \<noteq> []"
    and "chunk \<noteq> str ''[DONE]''"
    and "loads chunk = Other_error e"
  shows "iter_lines loads (raw # rest) = [Raise e]"
    and "sse_loop flow (iter_lines loads (raw # rest)) = ([], Some e)"
proof -
  have "sse_line loads raw = Raise e"
    using assms by (simp add: sse_line_def Let_def)
  then show "iter_lines loads (raw # rest) = [Raise e]"
    by simp
  then show "sse_loop flow (iter_lines loads (raw # rest)) = ([], Some e)"
    by simp
qed

text \<open>
  The reference decoder on texts that are JSON and that \<open>json.loads\<close> does not decode: a
  run of more digits than \<open>int\<close> accepts, and, whatever the room is, one array more than
  the room allows.
\<close>

lemma lex_all_digits:
  "\<exists>n'. lex_all (L_int neg n False k) (replicate m 49) = [int_token neg n' (k + m)]"
proof (induction m arbitrary: n k)
  case 0
  show ?case by auto
next
  case (Suc m)
  from Suc.IH [of "n * 10 + 1" "Suc k"] show ?case
    by (simp add: is_digit_def)
qed

lemma overlong_integer_unfold: "overlong_integer = 49 # replicate 4300 49"
proof -
  have "(4301 :: nat) = Suc 4300" by simp
  then show ?thesis
    unfolding overlong_integer_def by (simp only: replicate_Suc)
qed

lemma json_loads_overlong_integer: "json_loads overlong_integer = Other_error ValueError"
proof -
  obtain n' where "lex_all (L_int False 1 False 1) (replicate 4300 49)
                     = [int_token False n' (1 + 4300)]"
    using lex_all_digits by blast
  then have "lex_all L_idle overlong_integer = [T_overlong]"
    unfolding overlong_integer_unfold
    by (simp add: lex_idle_def is_digit_def int_token_def int_max_str_digits_def)
  moreover have "\<not> startswith overlong_integer [65279]"
    unfolding overlong_integer_unfold by (simp add: startswith_def)
  ultimately show ?thesis
    by (simp add: json_loads_def json_loads_in_def)
qed

lemma lex_all_brackets: "lex_all L_idle (replicate n 91) = replicate n T_lbracket"
  by (induction n) (simp_all add: lex_idle_def)

lemma parse_all_brackets:
  "m = P_value \<or> m = P_value_or_close \<Longrightarrow> room < depth st + Suc n \<Longrightarrow>
     parse_all room m st (replicate (Suc n) T_lbracket) = Other_error RecursionError"
proof (induction n arbitrary: m st)
  case 0
  then show ?case by auto
next
  case (Suc n)
  show ?case
  proof (cases "room \<le> depth st")
    case True
    with Suc.prems(1) show ?thesis by auto
  next
    case False
    have "parse_all room P_value_or_close (F_arr [] # st) (replicate (Suc n) T_lbracket)
            = Other_error RecursionError"
      using Suc.prems(2) by (intro Suc.IH) simp_all
    with False Suc.prems(1) show ?thesis by auto
  qed
qed

lemma json_loads_beyond_room:
  "json_loads_in room (replicate (Suc room) 91) = Other_error RecursionError"
proof -
  have "parse_all room P_value [] (replicate (Suc room) T_lbracket) = Other_error RecursionError"
    by (rule parse_all_brackets) simp_all
  then show ?thesis
    unfolding json_loads_in_def lex_all_brackets by (simp add: startswith_def)
qed

text \<open>The first line of a text ends at its first line feed.\<close>

lemma splitlines_first_line:
  "\<forall>c \<in> set a. \<not> is_linebreak c \<Longrightarrow> splitlines (a @ 10 # b) = a # splitlines b"
proof (induction a)
  case Nil
  show ?case by (simp add: is_linebreak_def)
next
  case (Cons c a)
  then have "c \<noteq> 13" "\<not> is_linebreak c"
    by (auto simp: is_linebreak_def)
  with Cons show ?case by simp
qed

lemma strip_unchanged:
  assumes "s \<noteq> []" and "\<not> isspace (hd s)" and "\<not> isspace (last s)"
  shows "strip s = s"
proof -
  from assms have "dropWhile isspace s = s"
    by (cases s) simp_all
  moreover from assms have "dropWhile isspace (rev s) = rev s"
    by (cases "rev s") (simp_all add: last_rev [symmetric] del: last_rev)
  ultimately show ?thesis
    by (simp add: strip_def)
qed

lemma overlong_integer_chars:
  "overlong_integer \<noteq> []" "hd overlong_integer = 49" "last overlong_integer = 49"
  "set overlong_integer = {49}"
  unfolding overlong_integer_def by simp_all

lemma overlong_line:
  "startswith (strip (str ''data: '' @ overlong_integer)) (str ''data:'')"
  "sse_payload (strip (str ''data: '' @ overlong_integer)) = overlong_integer"
proof -
  have keep: "strip (str ''data: '' @ overlong_integer) = str ''data: '' @ overlong_integer"
    by (rule strip_unchanged) (simp_all add: overlong_integer_chars str_def isspace_def)
  have payload: "strip overlong_integer = overlong_integer"
    by (rule strip_unchanged) (simp_all add: overlong_integer_chars isspace_def)
  show "startswith (strip (str ''data: '' @ overlong_integer)) (str ''data:'')"
    unfolding keep by (simp add: startswith_def str_def)
  have "sse_payload (str ''data: '' @ overlong_integer) = strip (32 # overlong_integer)"
    by (simp add: sse_payload_def str_def)
  also have "\<dots> = strip overlong_integer"
    by (simp add: strip_def isspace_def)
  finally show "sse_payload (strip (str ''data: '' @ overlong_integer)) = overlong_integer"
    unfolding keep payload .
qed

lemma overlong_body_lines:
  "splitlines overlong_body
     = [str ''data: '' @ overlong_integer, str ''data: {\"type\": \"a\", \"model\": \"m\"}'']"
proof -
  have split: "overlong_body
                 = (str ''data: '' @ overlong_integer)
                     @ 10 # str ''data: {\"type\": \"a\", \"model\": \"m\"}''"
    by (simp add: overlong_body_def)
  have "\<forall>c \<in> set (str ''data: '' @ overlong_integer). \<not> is_linebreak c"
    by (simp add: overlong_integer_chars str_def is_linebreak_def)
  then have "splitlines overlong_body
               = (str ''data: '' @ overlong_integer)
                   # splitlines (str ''data: {\"type\": \"a\", \"model\": \"m\"}'')"
    unfolding split by (rule splitlines_first_line)
  then show ?thesis
    by (simp add: str_def is_linebreak_def)
qed

text \<open>
  C7 says that, for every body text, a \<open>data:\<close> line whose payload text fails to decode
  gives a warning and is skipped, and that the valid lines after it are still yielded.
  This fails where the decoder fails with something else than \<open>JSONDecodeError\<close>. The body
  has two lines, \<open>data:\<close> followed by an integer of 4301 digits, and the valid line
  \<open>data: {"type": "a", "model": "m"}\<close>. On the first payload \<open>json.loads\<close> raises
  \<open>ValueError\<close>, the integer being longer than the 4300 digits \<open>int\<close> converts. The
  producer ends with that exception: there is no warning, the second line is never yielded,
  and the response callback, which has logged the summary and read and written the body,
  raises \<open>ValueError\<close> to the host without a record for the model \<open>m\<close>.
\<close>

theorem producer_aborts_on_overlong_integer:
  "json_loads overlong_integer = Other_error ValueError
   \<and> iter_sse_payloads json_loads overlong_body = [Raise ValueError]
   \<and> yielded (iter_sse_payloads json_loads overlong_body) = []
   \<and> response json_loads (sse_flow overlong_body)
       = \<lparr>flow_after = sse_flow overlong_body,
          effects = [Info_response (str ''f1'') 200
                       [(str ''content-type'', str ''text/event-stream'')],
                     Get_text, Write_text debug_path overlong_body],
          raised = Some ValueError\<rparr>
   \<and> iter_sse_payloads json_loads (str ''data: {\"type\": \"a\", \"model\": \"m\"}'')
       = [Yield (PStr (str ''a''))
            (PDict [(str ''type'', PStr (str ''a'')), (str ''model'', PStr (str ''m''))])]"
proof -
  let ?ok = "str ''data: {\"type\": \"a\", \"model\": \"m\"}''"
  have nonempty: "overlong_integer \<noteq> []"
    by (rule overlong_integer_chars)
  have not_done: "overlong_integer \<noteq> str ''[DONE]''"
  proof
    assume sentinel: "overlong_integer = str ''[DONE]''"
    have "hd overlong_integer = 91"
      unfolding sentinel by (simp add: str_def)
    with overlong_integer_chars(2) show False
      by simp
  qed
  note ends = other_error_ends_producer
    [where loads = json_loads and rest = "[?ok]",
     OF overlong_line nonempty not_done json_loads_overlong_integer]
  have trace: "iter_sse_payloads json_loads overlong_body = [Raise ValueError]"
    unfolding iter_sse_payloads_def overlong_body_lines by (rule ends(1))
  have run: "response json_loads (sse_flow overlong_body)
       = \<lparr>flow_after = sse_flow overlong_body,
          effects = [Info_response (str ''f1'') 200
                       [(str ''content-type'', str ''text/event-stream'')],
                     Get_text, Write_text debug_path overlong_body],
          raised = Some ValueError\<rparr>"
    by (simp add: response_def Let_def trace)
  have valid: "iter_sse_payloads json_loads ?ok
       = [Yield (PStr (str ''a''))
            (PDict [(str ''type'', PStr (str ''a'')), (str ''model'', PStr (str ''m''))])]"
    by (simp add: text_defs decoder_defs producer_defs)
  show ?thesis
    using json_loads_overlong_integer trace run valid by simp
qed

end
